theory Spec2Isabelle
  imports Main "HOL-Library.Sublist"
begin

section \<open>JavaScript values and the outside world of the setup script\<close>

text \<open>
  A thrown JavaScript error is a value with a \<open>name\<close> and a \<open>message\<close>; an error made by
  \<^verbatim>\<open>new Error(msg)\<close> has the name \<open>Error\<close>. An \<^verbatim>\<open>async\<close> function that can throw returns
  \<open>js_error + 'a\<close>, with \<open>Inl\<close> for the rejection.
\<close>

datatype js_error = JsError (err_name: string) (err_message: string)

text \<open>
  A \<^verbatim>\<open>string | undefined\<close> is a \<open>string option\<close>. JavaScript treats both \<^verbatim>\<open>undefined\<close> and the
  empty string as false in a condition and on the left of \<^verbatim>\<open>||\<close>.
\<close>

definition truthy :: "string option \<Rightarrow> bool" where
  "truthy s = (case s of None \<Rightarrow> False | Some t \<Rightarrow> t \<noteq> [])"

definition or_else :: "string option \<Rightarrow> string \<Rightarrow> string" where
  "or_else s d = (case s of None \<Rightarrow> d | Some t \<Rightarrow> if t = [] then d else t)"

datatype distance_metric = COSINE | EUCLIDEAN

record create_index_input =
  ci_vectorBucketArn :: string
  ci_indexName :: string
  ci_dimension :: nat
  ci_distanceMetric :: distance_metric
  ci_dataType :: string
  ci_nonFilterableMetadataKeys :: "string list"

text \<open>
  The requests the script sends and the timers it sets, in the order it issues them. Console
  and spinner output is presentation only (it cannot throw and nothing reads it back) and is
  left out of the log.
\<close>

datatype effect =
    CreateBucketCommand string
  | WaitUntilBucketExists nat string
  | ListObjectsV2Command string "string option"
  | PutObjectCommand string string string
  | CreateVectorBucketCommand string
  | CreateIndexCommand create_index_input
  | GetKnowledgeBaseCommand string
  | SetTimeout nat

record s3_object =
  Key :: "string option"

record list_objects_output =
  Contents :: "s3_object list option"
  IsTruncated :: "bool option"
  NextContinuationToken :: "string option"

text \<open>
  What \<^verbatim>\<open>fs.readdir(dir, { withFileTypes: true })\<close> finds under a directory: for each entry
  its name and whether it is a regular file, a directory (with its own entries, or with the
  error that reading it raises), or neither.
\<close>

datatype fs_node =
    File
  | Directory "(string \<times> fs_node) list"
  | Unreadable js_error
  | Other

text \<open>
  The collaborators of the script. Each field is the outcome of one awaited call as a
  function of the request: \<open>None\<close> (for calls whose response is not read) or \<open>Inr\<close> is the
  fulfilled promise, \<open>Some\<close> or \<open>Inl\<close> the rejection. The status of a knowledge base changes
  over time, so \<open>getKnowledgeBase\<close> is the status reported to the \<open>n\<close>-th query (from 0);
  \<^verbatim>\<open>response.knowledgeBase?.status\<close> may be undefined. The two functions of Node's \<open>path\<close>
  module are taken as they are.
\<close>

record aws =
  createBucket :: "string \<Rightarrow> js_error option"
  waitUntilBucketExists :: "nat \<Rightarrow> string \<Rightarrow> js_error option"
  listObjectsV2 :: "string \<Rightarrow> string option \<Rightarrow> js_error + list_objects_output"
  putObject :: "string \<Rightarrow> string \<Rightarrow> string \<Rightarrow> js_error option"
  createVectorBucket :: "string \<Rightarrow> js_error + string"
  createIndex :: "create_index_input \<Rightarrow> js_error + string"
  getKnowledgeBase :: "nat \<Rightarrow> js_error + string option"
  DOCUMENTS_DIR :: string
  mkdir :: "string \<Rightarrow> js_error option"
  readdir_documents :: "js_error + (string \<times> fs_node) list"
  readFile :: "string \<Rightarrow> js_error + string"
  path_join :: "string \<Rightarrow> string \<Rightarrow> string"
  path_relative :: "string \<Rightarrow> string \<Rightarrow> string"

section \<open>Resource provisioner\<close>

text \<open>
  \<^verbatim>\<open>createDocumentsBucket\<close>: the create call and the wait are both inside the \<^verbatim>\<open>try\<close>, so an
  error of either reaches the same \<^verbatim>\<open>catch\<close>.
\<close>

definition createDocumentsBucket_catch ::
  "string \<Rightarrow> effect list \<Rightarrow> js_error \<Rightarrow> effect list \<times> (js_error + string)" where
  "createDocumentsBucket_catch bucketName log error =
     (if err_name error = ''BucketAlreadyOwnedByYou'' then (log, Inr bucketName)
      else (log, Inl error))"

definition createDocumentsBucket :: "aws \<Rightarrow> string \<Rightarrow> effect list \<times> (js_error + string)" where
  "createDocumentsBucket w bucketName =
     (case createBucket w bucketName of
        Some error \<Rightarrow>
          createDocumentsBucket_catch bucketName [CreateBucketCommand bucketName] error
      | None \<Rightarrow>
          (case waitUntilBucketExists w 60 bucketName of
             Some error \<Rightarrow>
               createDocumentsBucket_catch bucketName
                 [CreateBucketCommand bucketName, WaitUntilBucketExists 60 bucketName] error
           | None \<Rightarrow>
               ([CreateBucketCommand bucketName, WaitUntilBucketExists 60 bucketName],
                Inr bucketName)))"

text \<open>
  \<^verbatim>\<open>createVectorsBucket\<close>: the \<^verbatim>\<open>catch\<close> chooses the spinner text by the error's name and then
  runs \<^verbatim>\<open>throw error\<close>, which stands after the \<^verbatim>\<open>if\<close>/\<^verbatim>\<open>else\<close> and so in both branches.
\<close>

definition createVectorsBucket :: "aws \<Rightarrow> string \<Rightarrow> effect list \<times> (js_error + string)" where
  "createVectorsBucket w bucketName =
     (case createVectorBucket w bucketName of
        Inr arn \<Rightarrow> ([CreateVectorBucketCommand bucketName], Inr arn)
      | Inl error \<Rightarrow>
          (if err_name error = ''VectorBucketAlreadyExists''
           then ([CreateVectorBucketCommand bucketName], Inl error)
           else ([CreateVectorBucketCommand bucketName], Inl error)))"

definition createIndexCommand :: "string \<Rightarrow> string \<Rightarrow> create_index_input" where
  "createIndexCommand vectorBucketArn indexName =
     \<lparr>ci_vectorBucketArn = vectorBucketArn, ci_indexName = indexName, ci_dimension = 1024,
      ci_distanceMetric = COSINE, ci_dataType = ''float32'',
      ci_nonFilterableMetadataKeys = [''AMAZON_BEDROCK_TEXT'', ''AMAZON_BEDROCK_METADATA'']\<rparr>"

definition createVectorIndex ::
  "aws \<Rightarrow> string \<Rightarrow> string \<Rightarrow> effect list \<times> (js_error + string)" where
  "createVectorIndex w vectorBucketArn indexName =
     (case createIndex w (createIndexCommand vectorBucketArn indexName) of
        Inr indexArn \<Rightarrow>
          ([CreateIndexCommand (createIndexCommand vectorBucketArn indexName)], Inr indexArn)
      | Inl error \<Rightarrow>
          (if err_name error = ''IndexAlreadyExists''
           then ([CreateIndexCommand (createIndexCommand vectorBucketArn indexName)],
                 Inr (vectorBucketArn @ ''/index/'' @ indexName))
           else ([CreateIndexCommand (createIndexCommand vectorBucketArn indexName)],
                 Inl error)))"

section \<open>Activation poller\<close>

definition maxAttempts :: nat where
  "maxAttempts = 30"

definition creation_failed :: js_error where
  "creation_failed = JsError ''Error'' ''Knowledge Base creation failed''"

definition activation_timeout :: js_error where
  "activation_timeout = JsError ''Error'' ''Timeout waiting for Knowledge Base to become active''"

text \<open>How the body of the \<^verbatim>\<open>try\<close> block ends when it does not throw.\<close>

datatype try_outcome = Returned | FellThrough

text \<open>
  One pass through the \<^verbatim>\<open>try\<close> block of \<^verbatim>\<open>waitForKnowledgeBase\<close>, given what the query
  answered: \<open>ACTIVE\<close> returns, \<open>FAILED\<close> throws a new error inside the block, any other
  status falls through to the increment and the sleep; a rejected query throws its error.
\<close>

definition try_body :: "js_error + string option \<Rightarrow> js_error + try_outcome" where
  "try_body response =
     (case response of
        Inl error \<Rightarrow> Inl error
      | Inr status \<Rightarrow>
          if status = Some ''ACTIVE'' then Inr Returned
          else if status = Some ''FAILED'' then Inl creation_failed
          else Inr FellThrough)"

text \<open>
  The \<^verbatim>\<open>while\<close> loop. \<open>attempts\<close> is the variable of the source, \<open>n\<close> counts the queries
  already answered, \<open>log\<close> is what has been issued so far. The \<^verbatim>\<open>catch\<close> receives every error
  thrown in the \<^verbatim>\<open>try\<close> block.
\<close>

function waitForKnowledgeBase_loop ::
  "aws \<Rightarrow> string \<Rightarrow> nat \<Rightarrow> nat \<Rightarrow> effect list \<Rightarrow> effect list \<times> (js_error + unit)" where
  "waitForKnowledgeBase_loop w knowledgeBaseId attempts n log =
     (if attempts < maxAttempts then
        (case try_body (getKnowledgeBase w n) of
           Inr Returned \<Rightarrow> (log @ [GetKnowledgeBaseCommand knowledgeBaseId], Inr ())
         | Inr FellThrough \<Rightarrow>
             waitForKnowledgeBase_loop w knowledgeBaseId (attempts + 1) (n + 1)
               (log @ [GetKnowledgeBaseCommand knowledgeBaseId, SetTimeout 10000])
         | Inl error \<Rightarrow>
             if attempts \<ge> maxAttempts - 1
             then (log @ [GetKnowledgeBaseCommand knowledgeBaseId], Inl error)
             else waitForKnowledgeBase_loop w knowledgeBaseId (attempts + 1) (n + 1)
                    (log @ [GetKnowledgeBaseCommand knowledgeBaseId, SetTimeout 10000]))
      else (log, Inl activation_timeout))"
  by pat_completeness auto
termination
  by (relation "measure (\<lambda>(w, k, attempts, n, log). maxAttempts - attempts)") auto

definition waitForKnowledgeBase :: "aws \<Rightarrow> string \<Rightarrow> effect list \<times> (js_error + unit)" where
  "waitForKnowledgeBase w knowledgeBaseId = waitForKnowledgeBase_loop w knowledgeBaseId 0 0 []"

section \<open>Idempotent uploader\<close>

definition ensureDocumentsDir :: "aws \<Rightarrow> js_error option" where
  "ensureDocumentsDir w = mkdir w (DOCUMENTS_DIR w)"

text \<open>
  The \<^verbatim>\<open>for\<close> loop of \<^verbatim>\<open>walk(dir)\<close> over the entries that \<^verbatim>\<open>readdir\<close> returned, with the shared
  array \<open>files\<close> passed along and returned.
\<close>

fun walk :: "aws \<Rightarrow> string \<Rightarrow> (string \<times> fs_node) list \<Rightarrow> string list \<Rightarrow> js_error + string list" where
  "walk w dir [] files = Inr files"
| "walk w dir ((name, node) # entries) files =
     (case node of
        Directory sub \<Rightarrow>
          (case walk w (path_join w dir name) sub files of
             Inl error \<Rightarrow> Inl error
           | Inr files' \<Rightarrow> walk w dir entries files')
      | Unreadable error \<Rightarrow> Inl error
      | File \<Rightarrow> walk w dir entries (files @ [path_join w dir name])
      | Other \<Rightarrow> walk w dir entries files)"

definition getLocalDocumentFiles :: "aws \<Rightarrow> js_error + string list" where
  "getLocalDocumentFiles w =
     (case readdir_documents w of
        Inl error \<Rightarrow> Inl error
      | Inr entries \<Rightarrow> walk w (DOCUMENTS_DIR w) entries [])"

text \<open>The keys that \<^verbatim>\<open>forEach\<close> adds for one response: those items whose \<open>Key\<close> is truthy.\<close>

definition page_keys :: "list_objects_output \<Rightarrow> string list" where
  "page_keys response =
     (case Contents response of
        None \<Rightarrow> []
      | Some items \<Rightarrow> concat (map (\<lambda>item. if truthy (Key item) then [the (Key item)] else []) items))"

text \<open>\<^verbatim>\<open>response.IsTruncated ? response.NextContinuationToken : undefined\<close>\<close>

definition next_token :: "list_objects_output \<Rightarrow> string option" where
  "next_token response =
     (if IsTruncated response = Some True then NextContinuationToken response else None)"

text \<open>
  The \<^verbatim>\<open>do ... while (continuationToken)\<close> loop of \<^verbatim>\<open>getExistingKeys\<close>. Nothing bounds the
  number of pages, so the loop is a partial function: \<open>None\<close> is a run that never ends. A
  finished run gives the requests issued and either the error of a rejected request or the
  final values of \<open>keys\<close> and \<open>continuationToken\<close>.
\<close>

partial_function (option) getExistingKeys_loop ::
  "aws \<Rightarrow> string \<Rightarrow> string set \<Rightarrow> string option \<Rightarrow> effect list
    \<Rightarrow> (effect list \<times> (js_error + string set \<times> string option)) option" where
  "getExistingKeys_loop w bucketName keys continuationToken log =
     (case listObjectsV2 w bucketName continuationToken of
        Inl error \<Rightarrow> Some (log @ [ListObjectsV2Command bucketName continuationToken], Inl error)
      | Inr response \<Rightarrow>
          if truthy (next_token response)
          then getExistingKeys_loop w bucketName (keys \<union> set (page_keys response))
                 (next_token response) (log @ [ListObjectsV2Command bucketName continuationToken])
          else Some (log @ [ListObjectsV2Command bucketName continuationToken],
                     Inr (keys \<union> set (page_keys response), next_token response)))"

declare getExistingKeys_loop.simps [code]

definition getExistingKeys ::
  "aws \<Rightarrow> string \<Rightarrow> (effect list \<times> (js_error + string set)) option" where
  "getExistingKeys w bucketName =
     (case getExistingKeys_loop w bucketName {} None [] of
        None \<Rightarrow> None
      | Some (log, Inl error) \<Rightarrow> Some (log, Inl error)
      | Some (log, Inr (keys, continuationToken)) \<Rightarrow> Some (log, Inr keys))"

text \<open>\<^verbatim>\<open>path.relative(DOCUMENTS_DIR, filePath).replace(/\\/g, '/')\<close>\<close>

definition object_key :: "aws \<Rightarrow> string \<Rightarrow> string" where
  "object_key w filePath =
     map (\<lambda>c. if c = CHR 0x5C then CHR ''/'' else c) (path_relative w (DOCUMENTS_DIR w) filePath)"

text \<open>
  The variables that the upload loop can reach: the \<open>Set\<close> object \<open>existingKeys\<close>, the two
  counters, and the requests issued so far.
\<close>

record upload_state =
  existingKeys :: "string set"
  uploaded :: nat
  skipped :: nat
  issued :: "effect list"

fun upload_loop ::
  "aws \<Rightarrow> string \<Rightarrow> string list \<Rightarrow> upload_state \<Rightarrow> upload_state \<times> (js_error + unit)" where
  "upload_loop w bucketName [] s = (s, Inr ())"
| "upload_loop w bucketName (filePath # localFiles) s =
     (if object_key w filePath \<in> existingKeys s
      then upload_loop w bucketName localFiles (s\<lparr>skipped := skipped s + 1\<rparr>)
      else
        (case readFile w filePath of
           Inl error \<Rightarrow> (s, Inl error)
         | Inr body \<Rightarrow>
             (case putObject w bucketName (object_key w filePath) body of
                Some error \<Rightarrow>
                  (s\<lparr>issued := issued s @ [PutObjectCommand bucketName (object_key w filePath) body]\<rparr>,
                   Inl error)
              | None \<Rightarrow>
                  upload_loop w bucketName localFiles
                    (s\<lparr>issued := issued s @ [PutObjectCommand bucketName (object_key w filePath) body],
                       uploaded := uploaded s + 1\<rparr>))))"

text \<open>
  \<^verbatim>\<open>uploadDocuments\<close>; \<open>None\<close> is a listing that never ends. The result carries the final
  state of the loop when the loop was entered.
\<close>

definition uploadDocuments ::
  "aws \<Rightarrow> string \<Rightarrow> (effect list \<times> (js_error + upload_state option)) option" where
  "uploadDocuments w bucketName =
     (case ensureDocumentsDir w of
        Some error \<Rightarrow> Some ([], Inl error)
      | None \<Rightarrow>
          (case getLocalDocumentFiles w of
             Inl error \<Rightarrow> Some ([], Inl error)
           | Inr localFiles \<Rightarrow>
               if length localFiles = 0 then Some ([], Inr None)
               else
                 (case getExistingKeys w bucketName of
                    None \<Rightarrow> None
                  | Some (log, Inl error) \<Rightarrow> Some (log, Inl error)
                  | Some (log, Inr keys) \<Rightarrow>
                      (case upload_loop w bucketName localFiles
                              \<lparr>existingKeys = keys, uploaded = 0, skipped = 0, issued = log\<rparr> of
                         (s, Inl error) \<Rightarrow> Some (issued s, Inl error)
                       | (s, Inr u) \<Rightarrow> Some (issued s, Inr (Some s))))))"

text \<open>The keys of the \<open>PutObject\<close> requests in a log, in order: the uploads actually planned.\<close>

fun put_keys :: "effect list \<Rightarrow> string list" where
  "put_keys [] = []"
| "put_keys (PutObjectCommand bucketName key body # es) = key # put_keys es"
| "put_keys (e # es) = put_keys es"

section \<open>Retrieval tool of the chat handler\<close>

record invoke_model_input =
  modelId :: string
  contentType :: string
  accept :: string
  inputText :: string

record 'v query_vectors_input =
  indexArn :: string
  queryVector :: 'v
  topK :: nat
  returnMetadata :: bool
  returnDistance :: bool

text \<open>
  A vector returned by the similarity query. Of its metadata only the field read by the
  handler is kept; the knowledge base stores the passage there as a string.
\<close>

record vector_metadata =
  AMAZON_BEDROCK_TEXT :: "string option"

record query_output_vector =
  metadata :: "vector_metadata option"

record query_vectors_output =
  vectors :: "query_output_vector list option"

datatype 'v chat_effect =
    InvokeModelCommand invoke_model_input
  | QueryCommand "'v query_vectors_input"

text \<open>
  The collaborators of the chat route: two environment variables, the embedding model (the
  decoded text of the response body), the decoding of that text (\<^verbatim>\<open>JSON.parse(...).embedding\<close>,
  which can throw) and the vector index. \<open>'v\<close> is the type of an embedding; the handler only
  passes it on.
\<close>

record 'v chat_env =
  S3_VECTORS_INDEX_ARN :: "string option"
  EMBEDDING_MODEL :: "string option"
  invokeModel :: "invoke_model_input \<Rightarrow> js_error + string"
  parse_embedding :: "string \<Rightarrow> js_error + 'v"
  queryVectors :: "'v query_vectors_input \<Rightarrow> js_error + query_vectors_output"

definition invokeModelCommand :: "'v chat_env \<Rightarrow> string \<Rightarrow> invoke_model_input" where
  "invokeModelCommand env text' =
     \<lparr>modelId = or_else (EMBEDDING_MODEL env) ''amazon.titan-embed-text-v2:0'',
      contentType = ''application/json'', accept = ''application/json'', inputText = text'\<rparr>"

definition generateEmbedding ::
  "'v chat_env \<Rightarrow> string \<Rightarrow> 'v chat_effect list \<times> (js_error + 'v)" where
  "generateEmbedding env text' =
     (case invokeModel env (invokeModelCommand env text') of
        Inl error \<Rightarrow> ([InvokeModelCommand (invokeModelCommand env text')], Inl error)
      | Inr body \<Rightarrow> ([InvokeModelCommand (invokeModelCommand env text')], parse_embedding env body))"

definition separator :: string where
  "separator = ''\<newline>\<newline>---\<newline>\<newline>''"

text \<open>\<^verbatim>\<open>Array.prototype.join\<close> on an array of strings.\<close>

fun array_join :: "string \<Rightarrow> string list \<Rightarrow> string" where
  "array_join sep [] = []"
| "array_join sep [x] = x"
| "array_join sep (x # y # ys) = x @ sep @ array_join sep (y # ys)"

text \<open>\<^verbatim>\<open>result.metadata?.AMAZON_BEDROCK_TEXT || ""\<close>\<close>

definition passage_text :: "query_output_vector \<Rightarrow> string" where
  "passage_text result =
     or_else (case metadata result of None \<Rightarrow> None | Some m \<Rightarrow> AMAZON_BEDROCK_TEXT m) []"

definition queryCommand :: "string \<Rightarrow> 'v \<Rightarrow> 'v query_vectors_input" where
  "queryCommand arn queryEmbedding =
     \<lparr>indexArn = arn, queryVector = queryEmbedding, topK = 5, returnMetadata = True,
      returnDistance = True\<rparr>"

text \<open>The body of the \<^verbatim>\<open>try\<close> block of \<^verbatim>\<open>findRelevantContent\<close>.\<close>

definition retrieve ::
  "'v chat_env \<Rightarrow> string \<Rightarrow> string \<Rightarrow> 'v chat_effect list \<times> (js_error + string)" where
  "retrieve env arn question =
     (case generateEmbedding env question of
        (log, Inl error) \<Rightarrow> (log, Inl error)
      | (log, Inr queryEmbedding) \<Rightarrow>
          (case queryVectors env (queryCommand arn queryEmbedding) of
             Inl error \<Rightarrow> (log @ [QueryCommand (queryCommand arn queryEmbedding)], Inl error)
           | Inr queryResponse \<Rightarrow>
               (log @ [QueryCommand (queryCommand arn queryEmbedding)],
                Inr (array_join separator
                       (map passage_text
                          (case vectors queryResponse of None \<Rightarrow> [] | Some results \<Rightarrow> results))))))"

definition findRelevantContent ::
  "'v chat_env \<Rightarrow> string \<Rightarrow> 'v chat_effect list \<times> (js_error + string)" where
  "findRelevantContent env question =
     (if \<not> truthy (S3_VECTORS_INDEX_ARN env) then ([], Inr [])
      else
        (case retrieve env (the (S3_VECTORS_INDEX_ARN env)) question of
           (log, Inl error) \<Rightarrow> (log, Inr [])
         | (log, Inr content) \<Rightarrow> (log, Inr content)))"

text \<open>The \<^verbatim>\<open>execute\<close> function of the tool \<open>getInformation\<close>.\<close>

definition getInformation ::
  "'v chat_env \<Rightarrow> string \<Rightarrow> 'v chat_effect list \<times> (js_error + string)" where
  "getInformation env question = findRelevantContent env question"

section \<open>Notions used in the statements\<close>

text \<open>The log of \<open>k\<close> full rounds of the poller: a status query, then a timer of 10 seconds.\<close>

definition schedule :: "string \<Rightarrow> nat \<Rightarrow> effect list" where
  "schedule kb k = concat (replicate k [GetKnowledgeBaseCommand kb, SetTimeout 10000])"

text \<open>
  A listing service that answers the request with the token \<open>token\<close> by the first of the
  given pages, and each further request, made with the continuation token of the page
  before, by the next page; only the last page carries no token that continues the loop.
\<close>

fun pages_from :: "aws \<Rightarrow> string \<Rightarrow> string option \<Rightarrow> list_objects_output list \<Rightarrow> bool" where
  "pages_from w bucketName token [] = False"
| "pages_from w bucketName token [page] =
     (listObjectsV2 w bucketName token = Inr page \<and> \<not> truthy (next_token page))"
| "pages_from w bucketName token (page # page' # pages) =
     (listObjectsV2 w bucketName token = Inr page \<and> truthy (next_token page)
      \<and> pages_from w bucketName (next_token page) (page' # pages))"

text \<open>The variables of the upload loop as \<^verbatim>\<open>uploadDocuments\<close> initialises them, before any request.\<close>

definition start_state :: "string set \<Rightarrow> upload_state" where
  "start_state R = \<lparr>existingKeys = R, uploaded = 0, skipped = 0, issued = []\<rparr>"

text \<open>
  The number of pieces that \<^verbatim>\<open>output.split(sep)\<close> gives for a non-empty \<open>sep\<close>: the
  separator is looked for from left to right, and a match is skipped whole before the search
  goes on. The second argument counts the characters of a match still to skip.
\<close>

fun count_segments :: "string \<Rightarrow> nat \<Rightarrow> string \<Rightarrow> nat" where
  "count_segments sep k [] = 1"
| "count_segments sep (Suc k) (c # cs) = count_segments sep k cs"
| "count_segments sep 0 (c # cs) =
     (if take (length sep) (c # cs) = sep
      then 1 + count_segments sep (length sep - 1) cs
      else count_segments sep 0 cs)"

section \<open>Concrete worlds\<close>

text \<open>
  A world in which every call succeeds at once, and the variants of it at which the theorems
  below are instantiated.
\<close>

definition example_aws :: aws where
  "example_aws =
     \<lparr>createBucket = (\<lambda>bucketName. None),
      waitUntilBucketExists = (\<lambda>maxWaitTime bucketName. None),
      listObjectsV2 = (\<lambda>bucketName token.
        Inr \<lparr>Contents = None, IsTruncated = None, NextContinuationToken = None\<rparr>),
      putObject = (\<lambda>bucketName key body. None),
      createVectorBucket = (\<lambda>bucketName. Inr (''arn:aws:s3vectors:::bucket/'' @ bucketName)),
      createIndex = (\<lambda>command. Inr (ci_vectorBucketArn command @ ''/index/'' @ ci_indexName command)),
      getKnowledgeBase = (\<lambda>n. Inr (Some ''ACTIVE'')),
      DOCUMENTS_DIR = ''/srv/documents'',
      mkdir = (\<lambda>dir. None),
      readdir_documents = Inr [],
      readFile = (\<lambda>filePath. Inr []),
      path_join = (\<lambda>dir name. dir @ ''/'' @ name),
      path_relative = (\<lambda>from to. drop (length from + 1) to)\<rparr>"

definition index_exists :: aws where
  "index_exists =
     example_aws\<lparr>createIndex := (\<lambda>command. Inl (JsError ''IndexAlreadyExists'' ''Index already exists''))\<rparr>"

definition bucket_owned :: aws where
  "bucket_owned =
     example_aws\<lparr>createBucket := (\<lambda>bucketName. Some (JsError ''BucketAlreadyOwnedByYou'' ''Bucket already owned''))\<rparr>"

definition creating_then_active :: aws where
  "creating_then_active =
     example_aws\<lparr>getKnowledgeBase := (\<lambda>n. if n < 2 then Inr (Some ''CREATING'') else Inr (Some ''ACTIVE''))\<rparr>"

definition always_creating :: aws where
  "always_creating = example_aws\<lparr>getKnowledgeBase := (\<lambda>n. Inr (Some ''CREATING''))\<rparr>"

definition first_page :: list_objects_output where
  "first_page =
     \<lparr>Contents = Some [\<lparr>Key = Some ''a.txt''\<rparr>, \<lparr>Key = Some ''docs/b.txt''\<rparr>],
      IsTruncated = Some True, NextContinuationToken = Some ''token-1''\<rparr>"

definition second_page :: list_objects_output where
  "second_page =
     \<lparr>Contents = Some [\<lparr>Key = Some ''docs/c.txt''\<rparr>],
      IsTruncated = Some False, NextContinuationToken = None\<rparr>"

definition two_pages :: aws where
  "two_pages =
     example_aws\<lparr>listObjectsV2 :=
       (\<lambda>bucketName token. if token = None then Inr first_page else Inr second_page)\<rparr>"

definition partly_synced :: aws where
  "partly_synced =
     example_aws\<lparr>readdir_documents :=
         Inr [(''a.txt'', File), (''docs'', Directory [(''b.txt'', File), (''link'', Other)])],
       listObjectsV2 := (\<lambda>bucketName token.
         Inr \<lparr>Contents = Some [\<lparr>Key = Some ''a.txt''\<rparr>], IsTruncated = Some False,
              NextContinuationToken = None\<rparr>)\<rparr>"

text \<open>A returned vector whose metadata carries the passage \<open>t\<close>, and worlds of the chat route.\<close>

definition passage :: "string \<Rightarrow> query_output_vector" where
  "passage t = \<lparr>metadata = Some \<lparr>AMAZON_BEDROCK_TEXT = Some t\<rparr>\<rparr>"

definition example_env :: "nat list chat_env" where
  "example_env =
     \<lparr>S3_VECTORS_INDEX_ARN = Some ''arn:aws:s3vectors:eu-west-1:1:bucket/kb-vectors/index/kb-index'',
      EMBEDDING_MODEL = None,
      invokeModel = (\<lambda>command. Inr ''{embedding:[1,2,3]}''),
      parse_embedding = (\<lambda>body. Inr [1, 2, 3]),
      queryVectors = (\<lambda>command. Inr \<lparr>vectors = Some
        [passage ''one'', passage ''two'', passage ''three'', passage ''four'', passage ''five'']\<rparr>)\<rparr>"

definition unconfigured_env :: "nat list chat_env" where
  "unconfigured_env = example_env\<lparr>S3_VECTORS_INDEX_ARN := None\<rparr>"

definition embedding_fails_env :: "nat list chat_env" where
  "embedding_fails_env =
     example_env\<lparr>invokeModel := (\<lambda>command. Inl (JsError ''ThrottlingException'' ''Too many requests''))\<rparr>"

definition query_fails_env :: "nat list chat_env" where
  "query_fails_env =
     example_env\<lparr>queryVectors := (\<lambda>command. Inl (JsError ''NotFoundException'' ''No such index''))\<rparr>"

definition embedded_separator_env :: "nat list chat_env" where
  "embedded_separator_env =
     example_env\<lparr>queryVectors := (\<lambda>command. Inr \<lparr>vectors = Some
        [passage ''a\<newline>\<newline>---\<newline>\<newline>b'']\<rparr>)\<rparr>"

definition missing_text_env :: "nat list chat_env" where
  "missing_text_env =
     example_env\<lparr>queryVectors := (\<lambda>command. Inr \<lparr>vectors = Some
        [passage ''one'', \<lparr>metadata = None\<rparr>, \<lparr>metadata = Some \<lparr>AMAZON_BEDROCK_TEXT = None\<rparr>\<rparr>]\<rparr>)\<rparr>"

section \<open>Properties of the resource provisioner\<close>

text \<open>
  Claim C1. The claim is that \<^verbatim>\<open>createVectorsBucket\<close> treats the error named
  \<open>VectorBucketAlreadyExists\<close> as success. The function does not: whatever the rest of the
  world \<open>w\<close> is, when the service rejects the creation with that name the function issues the
  one request and rejects with the very same error.
\<close>

theorem createVectorsBucket_rethrows_already_exists:
  "createVectorsBucket (w\<lparr>createVectorBucket := (\<lambda>name. Inl (JsError ''VectorBucketAlreadyExists'' msg))\<rparr>) bucketName
     = ([CreateVectorBucketCommand bucketName], Inl (JsError ''VectorBucketAlreadyExists'' msg))"
  by (simp add: createVectorsBucket_def)

text \<open>In every case the outcome of the function is the outcome of the service call.\<close>

lemma createVectorsBucket_result: "snd (createVectorsBucket w b) = createVectorBucket w b"
  by (simp add: createVectorsBucket_def split: sum.splits)

text \<open>
  Claim C7. When the creation of the index is rejected with the name \<open>IndexAlreadyExists\<close>,
  \<^verbatim>\<open>createVectorIndex\<close> returns the parent bucket ARN, \<open>/index/\<close> and the index name, put
  together, and has sent nothing but the one creation request.
\<close>

theorem createVectorIndex_already_exists:
  assumes "createIndex w (createIndexCommand vectorBucketArn indexName) = Inl error"
    and "err_name error = ''IndexAlreadyExists''"
  shows "createVectorIndex w vectorBucketArn indexName =
           ([CreateIndexCommand (createIndexCommand vectorBucketArn indexName)],
            Inr (vectorBucketArn @ ''/index/'' @ indexName))"
  using assms by (simp add: createVectorIndex_def)

theorem createVectorIndex_already_exists_witness:
  "createVectorIndex index_exists ''arn:aws:s3vectors:eu-west-1:1:bucket/kb-vectors'' ''kb-index'' =
     ([CreateIndexCommand (createIndexCommand ''arn:aws:s3vectors:eu-west-1:1:bucket/kb-vectors'' ''kb-index'')],
      Inr ''arn:aws:s3vectors:eu-west-1:1:bucket/kb-vectors/index/kb-index'')"
  using createVectorIndex_already_exists [of index_exists
      "''arn:aws:s3vectors:eu-west-1:1:bucket/kb-vectors''" "''kb-index''"
      "JsError ''IndexAlreadyExists'' ''Index already exists''"]
  by (simp add: index_exists_def example_aws_def)

text \<open>
  Claim C5, as amended. A successful return of \<^verbatim>\<open>createDocumentsBucket\<close> gives back the bucket
  name and comes about in one of two ways. Either the create call succeeded, the bounded wait
  (at most 60 seconds) was issued after it, and the wait was fulfilled or rejected with an
  error named \<open>BucketAlreadyOwnedByYou\<close>. Or the create call itself was rejected with an
  error of that name, and then nothing but the create request was issued: no wait.
\<close>

theorem createDocumentsBucket_success:
  assumes "createDocumentsBucket w bucketName = (log, Inr name)"
  shows "name = bucketName
    \<and> (createBucket w bucketName = None
         \<and> log = [CreateBucketCommand bucketName, WaitUntilBucketExists 60 bucketName]
         \<and> (waitUntilBucketExists w 60 bucketName = None
              \<or> (\<exists>error. waitUntilBucketExists w 60 bucketName = Some error
                    \<and> err_name error = ''BucketAlreadyOwnedByYou''))
       \<or> (\<exists>error. createBucket w bucketName = Some error
              \<and> err_name error = ''BucketAlreadyOwnedByYou'')
         \<and> log = [CreateBucketCommand bucketName])"
  using assms
  by (auto simp: createDocumentsBucket_def createDocumentsBucket_catch_def
      split: option.splits if_splits)

theorem createDocumentsBucket_success_witness:
  "createDocumentsBucket example_aws ''kb-documents'' =
     ([CreateBucketCommand ''kb-documents'', WaitUntilBucketExists 60 ''kb-documents''],
      Inr ''kb-documents'')
   \<and> createBucket example_aws ''kb-documents'' = None
   \<and> waitUntilBucketExists example_aws 60 ''kb-documents'' = None"
proof -
  have run: "createDocumentsBucket example_aws ''kb-documents'' =
     ([CreateBucketCommand ''kb-documents'', WaitUntilBucketExists 60 ''kb-documents''],
      Inr ''kb-documents'')"
    by (simp add: createDocumentsBucket_def example_aws_def)
  show ?thesis
    using createDocumentsBucket_success [OF run] run by (simp add: example_aws_def)
qed

text \<open>
  Claim C5 as stated, with the wait on every successful path, fails where the service
  answers that the bucket is already owned: the function succeeds and has not waited.
\<close>

theorem createDocumentsBucket_adopts_without_wait:
  "createDocumentsBucket bucket_owned ''kb-documents'' =
     ([CreateBucketCommand ''kb-documents''], Inr ''kb-documents'')
   \<and> WaitUntilBucketExists 60 ''kb-documents''
        \<notin> set (fst (createDocumentsBucket bucket_owned ''kb-documents''))"
  by (simp add: createDocumentsBucket_def createDocumentsBucket_catch_def bucket_owned_def
      example_aws_def)

section \<open>Properties of the activation poller\<close>

text \<open>
  The recursion equation of the loop is applied one round at a time, by the lemmas below.
\<close>

declare waitForKnowledgeBase_loop.simps [simp del]

lemma loop_pending:
  assumes "attempts < maxAttempts" "try_body (getKnowledgeBase w n) = Inr FellThrough"
  shows "waitForKnowledgeBase_loop w kb attempts n log =
         waitForKnowledgeBase_loop w kb (attempts + 1) (n + 1)
           (log @ [GetKnowledgeBaseCommand kb, SetTimeout 10000])"
  using assms by (subst waitForKnowledgeBase_loop.simps) simp

lemma loop_pending_run:
  assumes "attempts + k \<le> maxAttempts"
    and "\<forall>i<k. try_body (getKnowledgeBase w (n + i)) = Inr FellThrough"
  shows "waitForKnowledgeBase_loop w kb attempts n log =
         waitForKnowledgeBase_loop w kb (attempts + k) (n + k)
           (log @ concat (replicate k [GetKnowledgeBaseCommand kb, SetTimeout 10000]))"
  using assms
proof (induction k arbitrary: attempts n log)
  case 0
  then show ?case by simp
next
  case (Suc k)
  have a: "attempts < maxAttempts" using Suc.prems(1) by simp
  have b: "try_body (getKnowledgeBase w n) = Inr FellThrough" using Suc.prems(2) by force
  have c: "\<forall>i<k. try_body (getKnowledgeBase w (n + 1 + i)) = Inr FellThrough"
    using Suc.prems(2) by (metis Suc_eq_plus1 add_Suc_shift not_less_eq)
  show ?case
    using Suc.IH [of "attempts + 1" "n + 1" "log @ [GetKnowledgeBaseCommand kb, SetTimeout 10000]"]
      Suc.prems(1) c
    by (simp add: loop_pending [OF a b])
qed

lemma try_body_CREATING: "try_body (Inr (Some ''CREATING'')) = Inr FellThrough"
  by (simp add: try_body_def)

lemma try_body_FAILED: "try_body (Inr (Some ''FAILED'')) = Inl creation_failed"
  by (simp add: try_body_def)

lemma loop_active:
  assumes "attempts < maxAttempts" "getKnowledgeBase w n = Inr (Some ''ACTIVE'')"
  shows "waitForKnowledgeBase_loop w kb attempts n log = (log @ [GetKnowledgeBaseCommand kb], Inr ())"
  using assms by (subst waitForKnowledgeBase_loop.simps) (simp add: try_body_def)

lemma loop_exhausted:
  "waitForKnowledgeBase_loop w kb maxAttempts n log = (log, Inl activation_timeout)"
  by (subst waitForKnowledgeBase_loop.simps) simp

lemma loop_caught:
  assumes "attempts < maxAttempts - 1" "try_body (getKnowledgeBase w n) = Inl error"
  shows "waitForKnowledgeBase_loop w kb attempts n log =
         waitForKnowledgeBase_loop w kb (attempts + 1) (n + 1)
           (log @ [GetKnowledgeBaseCommand kb, SetTimeout 10000])"
  using assms by (subst waitForKnowledgeBase_loop.simps) (simp add: maxAttempts_def)

lemma loop_last_throw:
  assumes "attempts = maxAttempts - 1" "try_body (getKnowledgeBase w n) = Inl error"
  shows "waitForKnowledgeBase_loop w kb attempts n log =
         (log @ [GetKnowledgeBaseCommand kb], Inl error)"
  using assms by (subst waitForKnowledgeBase_loop.simps) (simp add: maxAttempts_def)

lemma loop_caught_run:
  assumes "attempts + k \<le> maxAttempts - 1"
    and "\<forall>i<k. \<exists>error. try_body (getKnowledgeBase w (n + i)) = Inl error"
  shows "waitForKnowledgeBase_loop w kb attempts n log =
         waitForKnowledgeBase_loop w kb (attempts + k) (n + k)
           (log @ concat (replicate k [GetKnowledgeBaseCommand kb, SetTimeout 10000]))"
  using assms
proof (induction k arbitrary: attempts n log)
  case 0
  then show ?case by simp
next
  case (Suc k)
  have a: "attempts < maxAttempts - 1" using Suc.prems(1) by simp
  obtain error where b: "try_body (getKnowledgeBase w n) = Inl error"
    using Suc.prems(2) by force
  have c: "\<forall>i<k. \<exists>error. try_body (getKnowledgeBase w (n + 1 + i)) = Inl error"
    using Suc.prems(2) by (metis Suc_eq_plus1 add_Suc_shift not_less_eq)
  show ?case
    using Suc.IH [of "attempts + 1" "n + 1" "log @ [GetKnowledgeBaseCommand kb, SetTimeout 10000]"]
      Suc.prems(1) c
    by (simp add: loop_caught [OF a b])
qed

lemma schedule_Suc: "schedule kb (Suc k) = schedule kb k @ [GetKnowledgeBaseCommand kb, SetTimeout 10000]"
  unfolding schedule_def by (induction k) simp_all

lemma schedule_add: "schedule kb (j + k) = schedule kb j @ schedule kb k"
  unfolding schedule_def by (simp add: replicate_add)

lemma schedule_prefix: "j \<le> k \<Longrightarrow> prefix (schedule kb j) (schedule kb k)"
  using schedule_add [of kb j "k - j"] by (metis le_add_diff_inverse prefixI)

lemma schedule_prefix_get:
  assumes "j < k"
  shows "prefix (schedule kb j @ [GetKnowledgeBaseCommand kb]) (schedule kb k)"
proof -
  have "prefix (schedule kb (Suc j)) (schedule kb k)"
    using assms by (simp add: schedule_prefix)
  moreover have "prefix (schedule kb j @ [GetKnowledgeBaseCommand kb]) (schedule kb (Suc j))"
    by (simp add: schedule_Suc)
  ultimately show ?thesis by (rule prefix_order.trans [rotated])
qed

lemma loop_log_prefix:
  assumes "attempts \<le> maxAttempts"
  shows "prefix (fst (waitForKnowledgeBase_loop w kb attempts n (schedule kb attempts)))
           (schedule kb maxAttempts)"
  using assms
proof (induction "maxAttempts - attempts" arbitrary: attempts n)
  case 0
  then have "attempts = maxAttempts" by simp
  then show ?case by (simp add: loop_exhausted)
next
  case (Suc d)
  then have lt: "attempts < maxAttempts" by simp
  have IH: "prefix (fst (waitForKnowledgeBase_loop w kb (attempts + 1) (n + 1) (schedule kb (attempts + 1))))
              (schedule kb maxAttempts)"
    using Suc.hyps(1) [of "attempts + 1" "n + 1"] Suc.hyps(2) lt by simp
  have step: "schedule kb attempts @ [GetKnowledgeBaseCommand kb, SetTimeout 10000] = schedule kb (attempts + 1)"
    by (simp add: schedule_Suc)
  show ?case
  proof (cases "try_body (getKnowledgeBase w n)")
    case (Inl error)
    show ?thesis
    proof (cases "attempts < maxAttempts - 1")
      case True
      show ?thesis using IH by (simp add: loop_caught [OF True Inl] step)
    next
      case False
      then have "attempts = maxAttempts - 1" using lt by simp
      then show ?thesis using lt by (simp add: loop_last_throw [OF _ Inl] schedule_prefix_get)
    qed
  next
    case (Inr outcome)
    show ?thesis
    proof (cases outcome)
      case Returned
      have "waitForKnowledgeBase_loop w kb attempts n (schedule kb attempts)
              = (schedule kb attempts @ [GetKnowledgeBaseCommand kb], Inr ())"
        using lt Inr Returned by (subst waitForKnowledgeBase_loop.simps) simp
      then show ?thesis using lt by (simp add: schedule_prefix_get)
    next
      case FellThrough
      show ?thesis using IH Inr FellThrough by (simp add: loop_pending [OF lt] step)
    qed
  qed
qed

lemma pending_from_start:
  assumes "k \<le> maxAttempts"
    and "\<forall>i<k. try_body (getKnowledgeBase w i) = Inr FellThrough"
  shows "waitForKnowledgeBase w kb = waitForKnowledgeBase_loop w kb k k (schedule kb k)"
  using loop_pending_run [of 0 k w 0 kb "[]"] assms
  by (simp add: waitForKnowledgeBase_def schedule_def)

lemma caught_from_start:
  assumes "k \<le> maxAttempts - 1"
    and "\<forall>i<k. \<exists>error. try_body (getKnowledgeBase w i) = Inl error"
  shows "waitForKnowledgeBase w kb = waitForKnowledgeBase_loop w kb k k (schedule kb k)"
  using loop_caught_run [of 0 k w 0 kb "[]"] assms
  by (simp add: waitForKnowledgeBase_def schedule_def)

lemma poller_three_checks:
  assumes "getKnowledgeBase w 0 = Inr (Some ''CREATING'')"
    and "getKnowledgeBase w 1 = Inr (Some ''CREATING'')"
    and "getKnowledgeBase w 2 = Inr (Some ''ACTIVE'')"
  shows "waitForKnowledgeBase w kb =
           (schedule kb 2 @ [GetKnowledgeBaseCommand kb], Inr ())"
proof -
  have "\<forall>i<2. try_body (getKnowledgeBase w i) = Inr FellThrough"
    using assms(1,2) by (auto simp: try_body_CREATING less_2_cases_iff)
  then have "waitForKnowledgeBase w kb = waitForKnowledgeBase_loop w kb 2 2 (schedule kb 2)"
    by (intro pending_from_start) (simp_all add: maxAttempts_def)
  then show ?thesis
    using loop_active [of 2 w 2 kb "schedule kb 2"] assms(3)
    by (simp add: maxAttempts_def)
qed

lemma poller_timeout:
  assumes "\<forall>i<30. getKnowledgeBase w i = Inr (Some ''CREATING'')"
  shows "waitForKnowledgeBase w kb = (schedule kb 30, Inl activation_timeout)"
proof -
  have "\<forall>i<30. try_body (getKnowledgeBase w i) = Inr FellThrough"
    using assms by (simp add: try_body_CREATING)
  then have "waitForKnowledgeBase w kb = waitForKnowledgeBase_loop w kb 30 30 (schedule kb 30)"
    by (intro pending_from_start) (simp_all add: maxAttempts_def)
  then show ?thesis
    using loop_exhausted [of w kb 30 "schedule kb 30"]
    by (simp add: maxAttempts_def)
qed

lemma count_schedule:
  "length (filter (\<lambda>e. e = GetKnowledgeBaseCommand kb) (schedule kb k)) = k"
  by (induction k) (simp_all add: schedule_Suc, simp add: schedule_def)

text \<open>
  Claim C4. The poller makes at most 30 status queries and sets a timer of 10 seconds after
  each query that neither returns nor throws out of the function: its log is always an initial
  part of 30 rounds of query and timer. When the first three answers are \<open>CREATING\<close>,
  \<open>CREATING\<close>, \<open>ACTIVE\<close> it returns normally after exactly three queries. When the first 30
  answers are \<open>CREATING\<close> it makes exactly 30 queries and then rejects with the timeout error,
  which is not the error made for the status \<open>FAILED\<close>.
\<close>

theorem poller_budget_and_interval:
  "maxAttempts = 30
   \<and> prefix (fst (waitForKnowledgeBase w kb)) (schedule kb maxAttempts)
   \<and> (getKnowledgeBase w 0 = Inr (Some ''CREATING'') \<and> getKnowledgeBase w 1 = Inr (Some ''CREATING'')
        \<and> getKnowledgeBase w 2 = Inr (Some ''ACTIVE'')
      \<longrightarrow> waitForKnowledgeBase w kb =
            ([GetKnowledgeBaseCommand kb, SetTimeout 10000, GetKnowledgeBaseCommand kb,
              SetTimeout 10000, GetKnowledgeBaseCommand kb], Inr ()))
   \<and> ((\<forall>i<30. getKnowledgeBase w i = Inr (Some ''CREATING''))
      \<longrightarrow> waitForKnowledgeBase w kb = (schedule kb 30, Inl activation_timeout)
          \<and> length (filter (\<lambda>e. e = GetKnowledgeBaseCommand kb) (fst (waitForKnowledgeBase w kb))) = 30)
   \<and> activation_timeout \<noteq> creation_failed"
proof -
  have "prefix (fst (waitForKnowledgeBase w kb)) (schedule kb maxAttempts)"
    using loop_log_prefix [of 0 w kb 0] by (simp add: waitForKnowledgeBase_def schedule_def)
  moreover have "schedule kb 2 @ [GetKnowledgeBaseCommand kb] =
      [GetKnowledgeBaseCommand kb, SetTimeout 10000, GetKnowledgeBaseCommand kb,
       SetTimeout 10000, GetKnowledgeBaseCommand kb]"
    by (simp add: schedule_def numeral_2_eq_2)
  moreover have "activation_timeout \<noteq> creation_failed"
    by (simp add: activation_timeout_def creation_failed_def)
  ultimately show ?thesis
    using poller_three_checks [of w kb] poller_timeout [of w kb] count_schedule [of kb 30]
    by (simp add: maxAttempts_def)
qed

theorem poller_budget_and_interval_witness:
  "getKnowledgeBase creating_then_active 0 = Inr (Some ''CREATING'')
   \<and> getKnowledgeBase creating_then_active 1 = Inr (Some ''CREATING'')
   \<and> getKnowledgeBase creating_then_active 2 = Inr (Some ''ACTIVE'')
   \<and> waitForKnowledgeBase creating_then_active ''KB1'' =
       ([GetKnowledgeBaseCommand ''KB1'', SetTimeout 10000, GetKnowledgeBaseCommand ''KB1'',
         SetTimeout 10000, GetKnowledgeBaseCommand ''KB1''], Inr ())
   \<and> getKnowledgeBase always_creating 29 = Inr (Some ''CREATING'')
   \<and> waitForKnowledgeBase always_creating ''KB1'' = (schedule ''KB1'' 30, Inl activation_timeout)"
  using poller_budget_and_interval [of creating_then_active "''KB1''"]
    poller_budget_and_interval [of always_creating "''KB1''"]
  by (simp add: creating_then_active_def always_creating_def example_aws_def)

text \<open>
  Claim C2. The claim is that a status \<open>FAILED\<close> ends the polling at once. In the source the
  error for \<open>FAILED\<close> is thrown inside the \<^verbatim>\<open>try\<close> block, so the \<^verbatim>\<open>catch\<close> of the same loop
  receives it and, while attempts remain, sleeps and queries again. With \<open>FAILED\<close> as the
  first answer and \<open>ACTIVE\<close> as the second the poller waits 10 seconds, queries a second time
  and returns normally; with \<open>FAILED\<close> as every answer it makes all 30 queries before it
  rejects with the failure error.
\<close>

theorem poller_retries_after_FAILED:
  "waitForKnowledgeBase
     (w\<lparr>getKnowledgeBase := (\<lambda>n. if n = 0 then Inr (Some ''FAILED'') else Inr (Some ''ACTIVE''))\<rparr>) kb
     = ([GetKnowledgeBaseCommand kb, SetTimeout 10000, GetKnowledgeBaseCommand kb], Inr ())
   \<and> waitForKnowledgeBase (w\<lparr>getKnowledgeBase := (\<lambda>n. Inr (Some ''FAILED''))\<rparr>) kb
     = (schedule kb 29 @ [GetKnowledgeBaseCommand kb], Inl creation_failed)"
proof -
  let ?w1 = "w\<lparr>getKnowledgeBase := (\<lambda>n. if n = 0 then Inr (Some ''FAILED'') else Inr (Some ''ACTIVE''))\<rparr>"
  let ?w2 = "w\<lparr>getKnowledgeBase := (\<lambda>n. Inr (Some ''FAILED''))\<rparr>"
  have "waitForKnowledgeBase_loop ?w1 kb 0 0 [] =
        waitForKnowledgeBase_loop ?w1 kb 1 1 [GetKnowledgeBaseCommand kb, SetTimeout 10000]"
    using loop_caught [of 0 ?w1 0 creation_failed kb "[]"]
    by (simp add: maxAttempts_def try_body_FAILED)
  then have one: "waitForKnowledgeBase ?w1 kb =
      ([GetKnowledgeBaseCommand kb, SetTimeout 10000, GetKnowledgeBaseCommand kb], Inr ())"
    using loop_active [of 1 ?w1 1 kb "[GetKnowledgeBaseCommand kb, SetTimeout 10000]"]
    by (simp add: waitForKnowledgeBase_def maxAttempts_def)
  have "waitForKnowledgeBase ?w2 kb = waitForKnowledgeBase_loop ?w2 kb 29 29 (schedule kb 29)"
    by (intro caught_from_start) (simp_all add: maxAttempts_def try_body_FAILED)
  then have two: "waitForKnowledgeBase ?w2 kb =
      (schedule kb 29 @ [GetKnowledgeBaseCommand kb], Inl creation_failed)"
    using loop_last_throw [of 29 ?w2 29 creation_failed kb "schedule kb 29"]
    by (simp add: maxAttempts_def try_body_FAILED)
  show ?thesis using one two by simp
qed

section \<open>Properties of the uploader\<close>

text \<open>The keys taken from one response are the non-empty keys of its items.\<close>

lemma set_page_keys:
  "set (page_keys response) =
     {k. k \<noteq> [] \<and> (\<exists>items item. Contents response = Some items \<and> item \<in> set items \<and> Key item = Some k)}"
proof (cases "Contents response")
  case None
  then show ?thesis by (simp add: page_keys_def)
next
  case (Some items)
  have "k \<in> set (page_keys response) \<longleftrightarrow> k \<noteq> [] \<and> (\<exists>item \<in> set items. Key item = Some k)" for k
    unfolding page_keys_def Some
    by (induction items) (auto simp: truthy_def split: option.splits)
  then show ?thesis using Some by auto
qed

lemma getExistingKeys_loop_pages:
  assumes "pages_from w b token pages"
  shows "getExistingKeys_loop w b keys token log =
           Some (log @ map (ListObjectsV2Command b) (token # map next_token (butlast pages)),
                 Inr (keys \<union> set (concat (map page_keys pages)), next_token (last pages)))
         \<and> \<not> truthy (next_token (last pages))"
  using assms
proof (induction w b token pages arbitrary: keys log rule: pages_from.induct)
  case (1 w bucketName token)
  then show ?case by simp
next
  case (2 w bucketName token page)
  then show ?case by (subst getExistingKeys_loop.simps) simp
next
  case (3 w bucketName token page page' pages)
  then have IH: "getExistingKeys_loop w bucketName (keys \<union> set (page_keys page)) (next_token page)
        (log @ [ListObjectsV2Command bucketName token]) =
      Some ((log @ [ListObjectsV2Command bucketName token])
              @ map (ListObjectsV2Command bucketName)
                  (next_token page # map next_token (butlast (page' # pages))),
            Inr ((keys \<union> set (page_keys page)) \<union> set (concat (map page_keys (page' # pages))),
                 next_token (last (page' # pages))))
      \<and> \<not> truthy (next_token (last (page' # pages)))"
    by simp
  from 3(2) have here: "listObjectsV2 w bucketName token = Inr page" "truthy (next_token page)"
    by simp_all
  show ?case
    using IH here by (subst getExistingKeys_loop.simps) (simp add: Un_assoc)
qed

text \<open>
  Claim C6. When the listing service answers with a chain of pages, \<^verbatim>\<open>getExistingKeys\<close>
  terminates, sends one request per page (the first without a token, each further one with
  the continuation token of the page before), returns the union of the keys of all the
  pages, and leaves the loop with a continuation token that is undefined or empty.
\<close>

theorem getExistingKeys_all_pages:
  assumes "pages_from w bucketName None pages"
  shows "getExistingKeys w bucketName =
           Some (map (ListObjectsV2Command bucketName) (None # map next_token (butlast pages)),
                 Inr (set (concat (map page_keys pages))))
         \<and> getExistingKeys_loop w bucketName {} None [] =
           Some (map (ListObjectsV2Command bucketName) (None # map next_token (butlast pages)),
                 Inr (set (concat (map page_keys pages)), next_token (last pages)))
         \<and> \<not> truthy (next_token (last pages))"
proof -
  have "pages \<noteq> []" using assms by auto
  then show ?thesis
    using getExistingKeys_loop_pages [OF assms, of "{}" "[]"]
    by (simp add: getExistingKeys_def)
qed

theorem getExistingKeys_all_pages_witness:
  "pages_from two_pages ''kb-documents'' None [first_page, second_page]
   \<and> getExistingKeys two_pages ''kb-documents'' =
       Some ([ListObjectsV2Command ''kb-documents'' None,
              ListObjectsV2Command ''kb-documents'' (Some ''token-1'')],
             Inr {''a.txt'', ''docs/b.txt'', ''docs/c.txt''})"
proof -
  have pages: "pages_from two_pages ''kb-documents'' None [first_page, second_page]"
    by (simp add: two_pages_def example_aws_def first_page_def second_page_def next_token_def
        truthy_def)
  show ?thesis
    using getExistingKeys_all_pages [OF pages] pages
    by (simp add: first_page_def second_page_def next_token_def page_keys_def truthy_def
        insert_commute)
qed

text \<open>
  Without such a chain the loop need not end: a service that answers every request with the
  same page, whose token continues the loop, keeps it running forever.
\<close>

lemma getExistingKeys_loop_never_ends:
  assumes "\<forall>token. listObjectsV2 w b token = Inr page" and "truthy (next_token page)"
  shows "getExistingKeys_loop w b keys token log = None"
proof -
  have "False" if "getExistingKeys_loop w b keys token log = Some y" for y
    using that assms
  proof (induction w b keys token log y rule: getExistingKeys_loop.raw_induct)
    case (1 loop w' b' keys' token' log' y')
    from 1 have step: "loop w' b' (keys' \<union> set (page_keys page)) (next_token page)
        (log' @ [ListObjectsV2Command b' token']) = Some y'"
      by simp
    from 1 have "getExistingKeys_loop w' b' (keys' \<union> set (page_keys page)) (next_token page)
        (log' @ [ListObjectsV2Command b' token']) = Some y'"
      by (subst (asm) getExistingKeys_loop.simps) simp
    with step show ?case using 1 by blast
  qed (rule that)
  then show ?thesis by (cases "getExistingKeys_loop w b keys token log") auto
qed

lemma put_keys_append: "put_keys (xs @ ys) = put_keys xs @ put_keys ys"
  by (induction xs rule: put_keys.induct) simp_all

lemma upload_loop_existingKeys:
  "existingKeys (fst (upload_loop w b localFiles s)) = existingKeys s"
  by (induction localFiles arbitrary: s) (simp_all split: sum.splits option.splits)

lemma upload_loop_plan:
  assumes "\<forall>f \<in> set localFiles. \<exists>body. readFile w f = Inr body
             \<and> putObject w b (object_key w f) body = None"
  shows "\<exists>s'. upload_loop w b localFiles s = (s', Inr ())
           \<and> put_keys (issued s') =
               put_keys (issued s) @ filter (\<lambda>k. k \<notin> existingKeys s) (map (object_key w) localFiles)
           \<and> uploaded s' = uploaded s + length (filter (\<lambda>k. k \<notin> existingKeys s) (map (object_key w) localFiles))
           \<and> skipped s' = skipped s + length (filter (\<lambda>k. k \<in> existingKeys s) (map (object_key w) localFiles))
           \<and> existingKeys s' = existingKeys s"
  using assms
proof (induction localFiles arbitrary: s)
  case Nil
  then show ?case by simp
next
  case (Cons f fs)
  obtain body where body: "readFile w f = Inr body" "putObject w b (object_key w f) body = None"
    using Cons.prems by auto
  have rest: "\<forall>f \<in> set fs. \<exists>body. readFile w f = Inr body \<and> putObject w b (object_key w f) body = None"
    using Cons.prems by simp
  show ?case
  proof (cases "object_key w f \<in> existingKeys s")
    case True
    then show ?thesis
      using Cons.IH [OF rest, of "s\<lparr>skipped := skipped s + 1\<rparr>"] by auto
  next
    case False
    then show ?thesis
      using Cons.IH [OF rest, of "s\<lparr>issued := issued s @ [PutObjectCommand b (object_key w f) body],
                       uploaded := uploaded s + 1\<rparr>"] body
      by (auto simp: put_keys_append)
  qed
qed

lemma upload_loop_all_present:
  assumes "object_key w ` set localFiles \<subseteq> existingKeys s"
  shows "upload_loop w b localFiles s = (s\<lparr>skipped := skipped s + length localFiles\<rparr>, Inr ())"
  using assms by (induction localFiles arbitrary: s) simp_all

lemma object_key_normalized: "CHR 0x5C \<notin> set (object_key w filePath)"
  by (auto simp: object_key_def)

text \<open>
  Claim C3. For every list of local files and every set \<open>R\<close> of remote keys, when the reads
  and the uploads succeed the loop ends normally and the keys it uploads are, in order, the
  normalized relative keys of the local files that are not in \<open>R\<close>; as a set, the keys of
  the local files minus \<open>R\<close>. No uploaded key contains a backslash, the set of existing keys
  is \<open>R\<close> afterwards as before, and a second run against \<open>R\<close> together with the uploaded
  keys skips every file and uploads nothing.
\<close>

theorem upload_plan_is_difference:
  assumes "\<forall>f \<in> set localFiles. \<exists>body. readFile w f = Inr body
             \<and> putObject w bucketName (object_key w f) body = None"
  shows "\<exists>s'. upload_loop w bucketName localFiles (start_state R) = (s', Inr ())
           \<and> put_keys (issued s') = filter (\<lambda>k. k \<notin> R) (map (object_key w) localFiles)
           \<and> set (put_keys (issued s')) = object_key w ` set localFiles - R
           \<and> CHR 0x5C \<notin> \<Union> (set ` set (put_keys (issued s')))
           \<and> existingKeys s' = R
           \<and> upload_loop w bucketName localFiles (start_state (R \<union> set (put_keys (issued s'))))
               = ((start_state (R \<union> set (put_keys (issued s'))))\<lparr>skipped := length localFiles\<rparr>, Inr ())"
proof -
  obtain s' where s': "upload_loop w bucketName localFiles (start_state R) = (s', Inr ())"
    "put_keys (issued s') = filter (\<lambda>k. k \<notin> R) (map (object_key w) localFiles)"
    "existingKeys s' = R"
    using upload_loop_plan [OF assms, of "start_state R"] by (auto simp: start_state_def)
  have diff: "set (put_keys (issued s')) = object_key w ` set localFiles - R"
    using s'(2) by auto
  have norm: "CHR 0x5C \<notin> \<Union> (set ` set (put_keys (issued s')))"
    using diff object_key_normalized by auto
  have "object_key w ` set localFiles \<subseteq> existingKeys (start_state (R \<union> set (put_keys (issued s'))))"
    using diff by (auto simp: start_state_def)
  then have again: "upload_loop w bucketName localFiles (start_state (R \<union> set (put_keys (issued s'))))
      = ((start_state (R \<union> set (put_keys (issued s'))))\<lparr>skipped := length localFiles\<rparr>, Inr ())"
    using upload_loop_all_present [of w localFiles "start_state (R \<union> set (put_keys (issued s')))" bucketName]
    by (simp add: start_state_def)
  show ?thesis using s' diff norm again by blast
qed

theorem upload_plan_is_difference_witness:
  "upload_loop example_aws ''kb-documents''
       [''/srv/documents/a.txt'', ''/srv/documents/docs'' @ [CHR 0x5C] @ ''b.txt'']
       (start_state {''a.txt''})
     = (\<lparr>existingKeys = {''a.txt''}, uploaded = 1, skipped = 1,
         issued = [PutObjectCommand ''kb-documents'' ''docs/b.txt'' []]\<rparr>, Inr ())
   \<and> upload_loop example_aws ''kb-documents''
       [''/srv/documents/a.txt'', ''/srv/documents/docs'' @ [CHR 0x5C] @ ''b.txt'']
       (start_state {''a.txt'', ''docs/b.txt''})
     = (\<lparr>existingKeys = {''a.txt'', ''docs/b.txt''}, uploaded = 0, skipped = 2, issued = []\<rparr>, Inr ())"
  using upload_plan_is_difference [of
      "[''/srv/documents/a.txt'', ''/srv/documents/docs'' @ [CHR 0x5C] @ ''b.txt'']"
      example_aws "''kb-documents''" "{''a.txt''}"]
  by (simp add: example_aws_def start_state_def object_key_def)

text \<open>
  The loop inside \<^verbatim>\<open>uploadDocuments\<close>, and one whole run: a tree with two regular files, of
  which the bucket already holds the first.
\<close>

lemma uploadDocuments_runs_loop:
  assumes "ensureDocumentsDir w = None" "getLocalDocumentFiles w = Inr localFiles"
    and "localFiles \<noteq> []" "getExistingKeys w bucketName = Some (log, Inr keys)"
    and "upload_loop w bucketName localFiles
           \<lparr>existingKeys = keys, uploaded = 0, skipped = 0, issued = log\<rparr> = (s, Inr ())"
  shows "uploadDocuments w bucketName = Some (issued s, Inr (Some s))"
  using assms by (simp add: uploadDocuments_def)

lemma getLocalDocumentFiles_example:
  "getLocalDocumentFiles partly_synced = Inr [''/srv/documents/a.txt'', ''/srv/documents/docs/b.txt'']"
  by (simp add: getLocalDocumentFiles_def partly_synced_def example_aws_def)

lemma getExistingKeys_example:
  "getExistingKeys partly_synced ''kb-documents'' =
     Some ([ListObjectsV2Command ''kb-documents'' None], Inr {''a.txt''})"
  by (simp add: getExistingKeys_def getExistingKeys_loop.simps partly_synced_def example_aws_def
      next_token_def truthy_def page_keys_def)

lemma uploadDocuments_example:
  "uploadDocuments partly_synced ''kb-documents'' =
     Some ([ListObjectsV2Command ''kb-documents'' None,
            PutObjectCommand ''kb-documents'' ''docs/b.txt'' []],
           Inr (Some \<lparr>existingKeys = {''a.txt''}, uploaded = 1, skipped = 1,
                 issued = [ListObjectsV2Command ''kb-documents'' None,
                           PutObjectCommand ''kb-documents'' ''docs/b.txt'' []]\<rparr>))"
proof -
  have loop: "upload_loop partly_synced ''kb-documents''
       [''/srv/documents/a.txt'', ''/srv/documents/docs/b.txt'']
       \<lparr>existingKeys = {''a.txt''}, uploaded = 0, skipped = 0,
        issued = [ListObjectsV2Command ''kb-documents'' None]\<rparr>
     = (\<lparr>existingKeys = {''a.txt''}, uploaded = 1, skipped = 1,
         issued = [ListObjectsV2Command ''kb-documents'' None,
                   PutObjectCommand ''kb-documents'' ''docs/b.txt'' []]\<rparr>, Inr ())"
    by (simp add: partly_synced_def example_aws_def object_key_def)
  show ?thesis
    using uploadDocuments_runs_loop [OF _ getLocalDocumentFiles_example _ getExistingKeys_example loop]
    by (simp add: ensureDocumentsDir_def partly_synced_def example_aws_def)
qed

section \<open>Properties of the retrieval tool\<close>

lemma findRelevantContent_configured:
  assumes "truthy (S3_VECTORS_INDEX_ARN env)"
    and "snd (generateEmbedding env question) = Inr queryEmbedding"
    and "queryVectors env (queryCommand (the (S3_VECTORS_INDEX_ARN env)) queryEmbedding) = Inr queryResponse"
  shows "snd (findRelevantContent env question) =
           Inr (array_join separator
                  (map passage_text (case vectors queryResponse of None \<Rightarrow> [] | Some results \<Rightarrow> results)))"
  using assms
  by (cases "generateEmbedding env question") (simp add: findRelevantContent_def retrieve_def)

lemma passage_text_present:
  "metadata v = Some m \<Longrightarrow> AMAZON_BEDROCK_TEXT m = Some t \<Longrightarrow> passage_text v = t"
  by (simp add: passage_text_def or_else_def)

text \<open>
  Claim C8. When the index is configured, the embedding is computed and the similarity query
  (sent with \<open>topK = 5\<close>) returns five vectors that each carry a text, the tool
  \<open>getInformation\<close> returns the five texts in the order of the query's answer, with the
  separator (two newlines, three hyphens, two newlines) between neighbours.
\<close>

theorem getInformation_joins_five:
  assumes "truthy (S3_VECTORS_INDEX_ARN env)"
    and "snd (generateEmbedding env question) = Inr queryEmbedding"
    and "queryVectors env (queryCommand (the (S3_VECTORS_INDEX_ARN env)) queryEmbedding) =
           Inr \<lparr>vectors = Some [v1, v2, v3, v4, v5]\<rparr>"
    and "metadata v1 = Some m1" "AMAZON_BEDROCK_TEXT m1 = Some t1"
    and "metadata v2 = Some m2" "AMAZON_BEDROCK_TEXT m2 = Some t2"
    and "metadata v3 = Some m3" "AMAZON_BEDROCK_TEXT m3 = Some t3"
    and "metadata v4 = Some m4" "AMAZON_BEDROCK_TEXT m4 = Some t4"
    and "metadata v5 = Some m5" "AMAZON_BEDROCK_TEXT m5 = Some t5"
  shows "snd (getInformation env question) =
           Inr (t1 @ ''\<newline>\<newline>---\<newline>\<newline>'' @ t2 @ ''\<newline>\<newline>---\<newline>\<newline>'' @ t3
                @ ''\<newline>\<newline>---\<newline>\<newline>'' @ t4 @ ''\<newline>\<newline>---\<newline>\<newline>'' @ t5)
         \<and> topK (queryCommand (the (S3_VECTORS_INDEX_ARN env)) queryEmbedding) = 5"
  using findRelevantContent_configured [OF assms(1,2,3)] assms(4-)
  by (simp add: getInformation_def passage_text_present separator_def queryCommand_def)

theorem getInformation_joins_five_witness:
  "truthy (S3_VECTORS_INDEX_ARN example_env)
   \<and> snd (getInformation example_env ''What is in the knowledge base?'') =
       Inr ''one\<newline>\<newline>---\<newline>\<newline>two\<newline>\<newline>---\<newline>\<newline>three\<newline>\<newline>---\<newline>\<newline>four\<newline>\<newline>---\<newline>\<newline>five''"
  using getInformation_joins_five [of example_env "''What is in the knowledge base?''" "[1, 2, 3]"
      "passage ''one''" "passage ''two''" "passage ''three''" "passage ''four''" "passage ''five''"
      "\<lparr>AMAZON_BEDROCK_TEXT = Some ''one''\<rparr>" "''one''"
      "\<lparr>AMAZON_BEDROCK_TEXT = Some ''two''\<rparr>" "''two''"
      "\<lparr>AMAZON_BEDROCK_TEXT = Some ''three''\<rparr>" "''three''"
      "\<lparr>AMAZON_BEDROCK_TEXT = Some ''four''\<rparr>" "''four''"
      "\<lparr>AMAZON_BEDROCK_TEXT = Some ''five''\<rparr>" "''five''"]
  by (simp add: example_env_def passage_def truthy_def generateEmbedding_def)

text \<open>
  Claim C9. \<^verbatim>\<open>findRelevantContent\<close> always returns a string and never rejects. With the index
  ARN undefined or empty it returns the empty string and sends no request; when the
  embedding call or the similarity query fails it returns the empty string.
\<close>

theorem findRelevantContent_never_throws:
  "(\<exists>content. snd (findRelevantContent env question) = Inr content)
   \<and> (\<not> truthy (S3_VECTORS_INDEX_ARN env) \<longrightarrow> findRelevantContent env question = ([], Inr []))
   \<and> (\<forall>error. truthy (S3_VECTORS_INDEX_ARN env) \<and> snd (generateEmbedding env question) = Inl error
        \<longrightarrow> snd (findRelevantContent env question) = Inr [])
   \<and> (\<forall>error queryEmbedding. truthy (S3_VECTORS_INDEX_ARN env)
          \<and> snd (generateEmbedding env question) = Inr queryEmbedding
          \<and> queryVectors env (queryCommand (the (S3_VECTORS_INDEX_ARN env)) queryEmbedding) = Inl error
        \<longrightarrow> snd (findRelevantContent env question) = Inr [])"
  by (cases "generateEmbedding env question")
     (auto simp: findRelevantContent_def retrieve_def split: sum.splits prod.splits)

theorem findRelevantContent_never_throws_witness:
  "findRelevantContent unconfigured_env ''q'' = ([], Inr [])
   \<and> snd (generateEmbedding embedding_fails_env ''q'') = Inl (JsError ''ThrottlingException'' ''Too many requests'')
   \<and> snd (findRelevantContent embedding_fails_env ''q'') = Inr []
   \<and> snd (generateEmbedding query_fails_env ''q'') = Inr [1, 2, 3]
   \<and> snd (findRelevantContent query_fails_env ''q'') = Inr []"
  using findRelevantContent_never_throws [of unconfigured_env "''q''"]
    findRelevantContent_never_throws [of embedding_fails_env "''q''"]
    findRelevantContent_never_throws [of query_fails_env "''q''"]
  by (simp add: unconfigured_env_def embedding_fails_env_def query_fails_env_def example_env_def
      truthy_def generateEmbedding_def)

lemma array_join_Cons:
  "array_join sep (x # xs) = x @ concat (map (\<lambda>y. sep @ y) xs)"
  by (induction xs arbitrary: x) simp_all

lemma passage_text_cases:
  "passage_text v =
     (case metadata v of None \<Rightarrow> [] | Some m \<Rightarrow> (case AMAZON_BEDROCK_TEXT m of None \<Rightarrow> [] | Some t \<Rightarrow> t))"
  by (simp add: passage_text_def or_else_def split: option.splits)

lemma count_segments_skip:
  "count_segments sep (length xs) (xs @ rest) = count_segments sep 0 rest"
  by (induction xs) simp_all

lemma count_segments_match:
  assumes "sep \<noteq> []"
  shows "count_segments sep 0 (sep @ rest) = 1 + count_segments sep 0 rest"
proof -
  obtain c cs where sep: "sep = c # cs" using assms by (cases sep) auto
  have found: "take (length sep) (c # cs @ rest) = sep"
    using sep by simp
  have "count_segments sep 0 (c # cs @ rest) = 1 + count_segments sep (length sep - 1) (cs @ rest)"
    using found by (simp del: take_Suc_Cons)
  also have "length sep - 1 = length cs" using sep by simp
  finally show ?thesis using sep by (simp add: count_segments_skip)
qed

lemma count_segments_separator:
  "count_segments separator 0 (separator @ rest) = 1 + count_segments separator 0 rest"
  by (rule count_segments_match) (simp add: separator_def)

lemma count_segments_no_newline:
  assumes "CHR 0x0A \<notin> set t"
  shows "count_segments separator 0 (t @ rest) = count_segments separator 0 rest"
  using assms
proof (induction t)
  case Nil
  then show ?case by simp
next
  case (Cons c t)
  then have "take (length separator) (c # t @ rest) \<noteq> separator"
    by (auto simp: separator_def)
  then show ?case using Cons by simp
qed

lemma count_segments_tail:
  assumes "\<forall>t \<in> set ts. CHR 0x0A \<notin> set t"
  shows "count_segments separator 0 (concat (map (\<lambda>y. separator @ y) ts)) = length ts + 1"
  using assms
  by (induction ts) (simp_all add: count_segments_separator count_segments_no_newline)

lemma count_segments_join:
  assumes "\<forall>t \<in> set ts. CHR 0x0A \<notin> set t" "ts \<noteq> []"
  shows "count_segments separator 0 (array_join separator ts) = length ts"
proof -
  obtain t ts' where ts: "ts = t # ts'" using assms(2) by (cases ts) auto
  then show ?thesis
    using assms(1) by (simp add: array_join_Cons count_segments_no_newline count_segments_tail)
qed

text \<open>
  Claim C10, as amended. When the query succeeds, the output is the text of the first
  returned vector followed, for each further vector, by the separator and that vector's
  text, where a vector without metadata or without the text field contributes the empty
  string: \<open>n \<ge> 1\<close> vectors give \<open>n - 1\<close> inserted separators. An absent results array gives
  the empty string. The number of separator-delimited segments of the output equals the
  number of returned vectors when there is at least one vector and no text contains a
  newline character, in particular when every text is missing.
\<close>

theorem findRelevantContent_join_missing_text:
  assumes "truthy (S3_VECTORS_INDEX_ARN env)"
    and "snd (generateEmbedding env question) = Inr queryEmbedding"
    and "queryVectors env (queryCommand (the (S3_VECTORS_INDEX_ARN env)) queryEmbedding) = Inr queryResponse"
    and "results = (case vectors queryResponse of None \<Rightarrow> [] | Some vs \<Rightarrow> vs)"
  shows "snd (findRelevantContent env question) =
           Inr (case results of
                  [] \<Rightarrow> []
                | v # vs \<Rightarrow> passage_text v @ concat (map (\<lambda>u. separator @ passage_text u) vs))
         \<and> (\<forall>v. passage_text v =
               (case metadata v of None \<Rightarrow> []
                | Some m \<Rightarrow> (case AMAZON_BEDROCK_TEXT m of None \<Rightarrow> [] | Some t \<Rightarrow> t)))
         \<and> (vectors queryResponse = None \<longrightarrow> snd (findRelevantContent env question) = Inr [])
         \<and> (results \<noteq> [] \<and> (\<forall>v \<in> set results. CHR 0x0A \<notin> set (passage_text v))
              \<longrightarrow> (\<exists>out. snd (findRelevantContent env question) = Inr out
                     \<and> count_segments separator 0 out = length results))"
proof -
  have out: "snd (findRelevantContent env question) = Inr (array_join separator (map passage_text results))"
    using findRelevantContent_configured [OF assms(1,2,3)] assms(4) by simp
  have shape: "array_join separator (map passage_text results) =
      (case results of [] \<Rightarrow> []
       | v # vs \<Rightarrow> passage_text v @ concat (map (\<lambda>u. separator @ passage_text u) vs))"
    by (cases results) (simp_all add: array_join_Cons comp_def)
  have none: "vectors queryResponse = None \<longrightarrow> snd (findRelevantContent env question) = Inr []"
    using out assms(4) by simp
  have count: "results \<noteq> [] \<and> (\<forall>v \<in> set results. CHR 0x0A \<notin> set (passage_text v))
      \<longrightarrow> count_segments separator 0 (array_join separator (map passage_text results)) = length results"
    using count_segments_join [of "map passage_text results"] by simp
  show ?thesis
    using out shape none count passage_text_cases by simp
qed

theorem findRelevantContent_join_missing_text_witness:
  "truthy (S3_VECTORS_INDEX_ARN missing_text_env)
   \<and> snd (findRelevantContent missing_text_env ''q'') =
       Inr ''one\<newline>\<newline>---\<newline>\<newline>\<newline>\<newline>---\<newline>\<newline>''
   \<and> count_segments separator 0 ''one\<newline>\<newline>---\<newline>\<newline>\<newline>\<newline>---\<newline>\<newline>'' = 3"
  using findRelevantContent_join_missing_text [of missing_text_env "''q''" "[1, 2, 3]"
      "\<lparr>vectors = Some [passage ''one'', \<lparr>metadata = None\<rparr>,
          \<lparr>metadata = Some \<lparr>AMAZON_BEDROCK_TEXT = None\<rparr>\<rparr>]\<rparr>"
      "[passage ''one'', \<lparr>metadata = None\<rparr>, \<lparr>metadata = Some \<lparr>AMAZON_BEDROCK_TEXT = None\<rparr>\<rparr>]"]
  by (simp add: missing_text_env_def example_env_def truthy_def generateEmbedding_def passage_def
      passage_text_def or_else_def separator_def)

text \<open>
  Claim C10 as stated, with the number of segments always equal to the number of vectors,
  fails for a single returned vector whose text contains the separator: the output has two
  segments.
\<close>

theorem segments_exceed_vectors:
  "queryVectors embedded_separator_env (queryCommand (the (S3_VECTORS_INDEX_ARN embedded_separator_env)) [1, 2, 3])
     = Inr \<lparr>vectors = Some [passage ''a\<newline>\<newline>---\<newline>\<newline>b'']\<rparr>
   \<and> snd (findRelevantContent embedded_separator_env ''q'') = Inr ''a\<newline>\<newline>---\<newline>\<newline>b''
   \<and> count_segments separator 0 ''a\<newline>\<newline>---\<newline>\<newline>b'' = 2
   \<and> length [passage ''a\<newline>\<newline>---\<newline>\<newline>b''] = 1"
  by (simp add: embedded_separator_env_def example_env_def findRelevantContent_def retrieve_def
      generateEmbedding_def truthy_def passage_def passage_text_def or_else_def separator_def)

end
